theory Spec2Isabelle
  imports Complex_Main "HOL-Library.Sublist"
begin

section \<open>Python values and exceptions\<close>

text \<open>
  The values that travel through the ingestion path: what \<^verbatim>\<open>json.load\<close> gives for the
  documented record format (strings and integers), JSON booleans, and \<^verbatim>\<open>None\<close>, which
  \<^verbatim>\<open>dict.get\<close> returns for a missing key. JSON floats, arrays and objects are outside this
  model. Strings are lists of 8-bit characters.
\<close>

datatype pyval = PNone | PBool bool | PInt int | PStr string

text \<open>Python truthiness, as \<^verbatim>\<open>all([...])\<close> and \<^verbatim>\<open>if x:\<close> test it.\<close>

fun truthy :: "pyval \<Rightarrow> bool" where
  "truthy PNone = False"
| "truthy (PBool b) = b"
| "truthy (PInt n) = (n \<noteq> 0)"
| "truthy (PStr s) = (s \<noteq> [])"

datatype error = ConnectionError | ValueError | TypeError | EOFError | Abort

text \<open>\<^verbatim>\<open>str.lower()\<close> on 8-bit characters: A-Z and the Latin-1 capitals move up by 32.\<close>

definition lower_char :: "char \<Rightarrow> char" where
  "lower_char c =
     (let n = (of_char c :: nat) in
      if (65 \<le> n \<and> n \<le> 90) \<or> (192 \<le> n \<and> n \<le> 222 \<and> n \<noteq> 215)
      then char_of (n + 32) else c)"

definition lower :: "string \<Rightarrow> string" where
  "lower s = map lower_char s"

section \<open>The graph database (graph.py)\<close>

text \<open>
  The Neo4j store holds Book, Chapter and Verse nodes, each with the identity the
  database assigned, and the two relationship types. The property names are those of the
  Cypher statements in insert.py.
\<close>

record book_node =
  b_id :: int
  b_name :: pyval

record chapter_node =
  c_id :: int
  c_number :: int
  c_bookName :: pyval

record verse_node =
  v_id :: int
  v_number :: int
  v_chapterNumber :: int
  v_bookName :: pyval
  v_text :: pyval

record store =
  books :: "book_node list"
  chapters :: "chapter_node list"
  verses :: "verse_node list"
  has_chapter :: "(int \<times> int) list"
  has_verse :: "(int \<times> int) list"

definition empty_store :: store where
  "empty_store = \<lparr>books = [], chapters = [], verses = [], has_chapter = [], has_verse = []\<rparr>"

text \<open>A node created by \<^verbatim>\<open>MERGE\<close> receives an identity no live node has.\<close>

definition all_ids :: "store \<Rightarrow> int list" where
  "all_ids s = map b_id (books s) @ map c_id (chapters s) @ map v_id (verses s)"

definition fresh_id :: "store \<Rightarrow> int" where
  "fresh_id s = fold max (all_ids s) (- 1) + 1"

subsection \<open>The Cypher statements\<close>

text \<open>\<^verbatim>\<open>MERGE (b:Book {name: $book_name})\<close>: the matching nodes, or one new node.\<close>

definition merge_book :: "store \<Rightarrow> pyval \<Rightarrow> store \<times> int list" where
  "merge_book s book_name =
     (let found = map b_id (filter (\<lambda>b. b_name b = book_name) (books s)) in
      if found \<noteq> [] then (s, found)
      else (s\<lparr>books := books s @ [\<lparr>b_id = fresh_id s, b_name = book_name\<rparr>]\<rparr>, [fresh_id s]))"

text \<open>\<^verbatim>\<open>MERGE (c:Chapter {number: $chapter_num, bookName: $book_name})\<close>.\<close>

definition merge_chapter :: "store \<Rightarrow> int \<Rightarrow> pyval \<Rightarrow> store \<times> int list" where
  "merge_chapter s chapter_num book_name =
     (let found = map c_id (filter (\<lambda>c. c_number c = chapter_num \<and> c_bookName c = book_name)
                                  (chapters s)) in
      if found \<noteq> [] then (s, found)
      else (s\<lparr>chapters := chapters s @
                 [\<lparr>c_id = fresh_id s, c_number = chapter_num, c_bookName = book_name\<rparr>]\<rparr>,
            [fresh_id s]))"

text \<open>
  \<^verbatim>\<open>MERGE (v:Verse {number: $verse_num, chapterNumber: $chapter_num, bookName: $book_name})
  ON CREATE SET v.text = $text  ON MATCH SET v.text = $text\<close>.
\<close>

definition verse_key :: "verse_node \<Rightarrow> pyval \<times> int \<times> int" where
  "verse_key v = (v_bookName v, v_chapterNumber v, v_number v)"

definition merge_verse :: "store \<Rightarrow> int \<Rightarrow> int \<Rightarrow> pyval \<Rightarrow> pyval \<Rightarrow> store \<times> int list" where
  "merge_verse s verse_num chapter_num book_name text =
     (let k = (book_name, chapter_num, verse_num);
          found = map v_id (filter (\<lambda>v. verse_key v = k) (verses s)) in
      if found \<noteq> []
      then (s\<lparr>verses := map (\<lambda>v. if verse_key v = k then v\<lparr>v_text := text\<rparr> else v) (verses s)\<rparr>,
            found)
      else (s\<lparr>verses := verses s @
                 [\<lparr>v_id = fresh_id s, v_number = verse_num, v_chapterNumber = chapter_num,
                   v_bookName = book_name, v_text = text\<rparr>]\<rparr>,
            [fresh_id s]))"

text \<open>\<^verbatim>\<open>MERGE (a)-[:R]->(b)\<close> for every row: a relationship is created where none exists.\<close>

definition merge_rels :: "(int \<times> int) list \<Rightarrow> (int \<times> int) list \<Rightarrow> (int \<times> int) list" where
  "merge_rels rels pairs = fold (\<lambda>p rs. if p \<in> set rs then rs else rs @ [p]) pairs rels"

text \<open>The whole statement that insert.py runs for one verse.\<close>

definition merge_query :: "store \<Rightarrow> pyval \<Rightarrow> int \<Rightarrow> int \<Rightarrow> pyval \<Rightarrow> store" where
  "merge_query s book_name chapter_num verse_num text =
     (case merge_book s book_name of (s1, bs) \<Rightarrow>
      case merge_chapter s1 chapter_num book_name of (s2, cs) \<Rightarrow>
      case merge_verse s2 verse_num chapter_num book_name text of (s3, vs) \<Rightarrow>
        s3\<lparr>has_chapter := merge_rels (has_chapter s3) (List.product bs cs),
           has_verse := merge_rels (has_verse s3) (List.product cs vs)\<rparr>)"

text \<open>
  The rows of \<^verbatim>\<open>get_verse_by_id\<close>'s statement: the verse with that identity, joined with
  the chapters that have it and the books that have those chapters.
\<close>

record verse_row =
  book :: pyval
  "chapter" :: int
  verse :: int
  "text" :: pyval

definition match_verse_by_id :: "store \<Rightarrow> int \<Rightarrow> verse_row list" where
  "match_verse_by_id s nid =
     concat (map (\<lambda>v.
       concat (map (\<lambda>c.
         map (\<lambda>b. \<lparr>book = b_name b, chapter = c_number c, verse = v_number v, text = v_text v\<rparr>)
             (filter (\<lambda>b. (b_id b, c_id c) \<in> set (has_chapter s)) (books s)))
         (filter (\<lambda>c. (c_id c, v_id v) \<in> set (has_verse s)) (chapters s))))
       (filter (\<lambda>v. v_id v = nid) (verses s)))"

text \<open>\<^verbatim>\<open>MATCH (v:Verse) RETURN id(v) AS node_id, v.text AS text\<close>.\<close>

definition match_all_verses :: "store \<Rightarrow> (int \<times> pyval) list" where
  "match_all_verses s = map (\<lambda>v. (v_id v, v_text v)) (verses s)"

subsection \<open>The driver\<close>

text \<open>
  What the database connection does is outside the program: whether \<^verbatim>\<open>get_driver\<close> can
  connect, and whether \<^verbatim>\<open>session.run\<close> raises for a statement. \<^verbatim>\<open>py_int_str\<close> is
  Python's \<^verbatim>\<open>int()\<close> on a string, \<open>None\<close> where it raises \<^verbatim>\<open>ValueError\<close>.
\<close>

datatype cypher = MergeVerse pyval int int pyval | DeleteAll | VerseById int | AllVerses

record env =
  connect_fails :: bool
  run_fails :: "cypher \<Rightarrow> bool"
  py_int_str :: "string \<Rightarrow> int option"

definition get_driver :: "env \<Rightarrow> error + unit" where
  "get_driver e = (if connect_fails e then Inl ConnectionError else Inr ())"

text \<open>
  \<^verbatim>\<open>run_query\<close>: \<^verbatim>\<open>get_driver\<close> is called before the \<^verbatim>\<open>try\<close>, so its exception leaves the
  function; an exception of the session is caught and an empty list returned. \<open>outcome\<close>
  is what the database does with the statement: the store after it and the rows.
\<close>

definition run_query :: "env \<Rightarrow> cypher \<Rightarrow> store \<times> 'r list \<Rightarrow> store \<Rightarrow> error + store \<times> 'r list" where
  "run_query e query outcome s =
     (case get_driver e of
        Inl err \<Rightarrow> Inl err
      | Inr _ \<Rightarrow> if run_fails e query then Inr (s, []) else Inr outcome)"

text \<open>
  \<^verbatim>\<open>clear_all_data\<close>: \<open>answer\<close> is what \<^verbatim>\<open>input()\<close> reads, \<open>None\<close> when it raises at the
  end of the input.
\<close>

definition clear_all_data :: "env \<Rightarrow> store \<Rightarrow> string option \<Rightarrow> error + store \<times> bool" where
  "clear_all_data e s answer =
     (case answer of
        None \<Rightarrow> Inl EOFError
      | Some confirmation \<Rightarrow>
          if lower confirmation = ''yes''
          then (case run_query e DeleteAll (empty_store, ([] :: unit list)) s of
                  Inl err \<Rightarrow> Inr (s, False)
                | Inr (s', rows) \<Rightarrow> Inr (s', True))
          else Inr (s, False))"

definition get_verse_by_id :: "env \<Rightarrow> store \<Rightarrow> int \<Rightarrow> verse_row option" where
  "get_verse_by_id e s nid =
     (case run_query e (VerseById nid) (s, match_verse_by_id s nid) s of
        Inl err \<Rightarrow> None
      | Inr (s', result) \<Rightarrow> if result \<noteq> [] then Some (hd result) else None)"

definition get_all_verses_for_indexing :: "env \<Rightarrow> store \<Rightarrow> (int \<times> pyval) list" where
  "get_all_verses_for_indexing e s =
     (case run_query e AllVerses (s, match_all_verses s) s of
        Inl err \<Rightarrow> []
      | Inr (s', results) \<Rightarrow> results)"

section \<open>The command line (main.py)\<close>

text \<open>
  \<^verbatim>\<open>clear_database_command\<close>: \<open>force\<close> is the flag, \<open>confirm\<close> what \<^verbatim>\<open>click.confirm\<close>
  answers (\<open>None\<close> when it aborts), \<open>answer\<close> what the prompt inside
  \<^verbatim>\<open>graph.clear_all_data\<close> reads. The result is the store and the message printed last.
\<close>

datatype clear_msg =
  ClearedSuccessfully | CancelledByUser | FailedToClear | ErrorClearing | Cancelled

definition clear_database_command ::
  "env \<Rightarrow> store \<Rightarrow> bool \<Rightarrow> bool option \<Rightarrow> string option \<Rightarrow> error + store \<times> clear_msg" where
  "clear_database_command e s force confirm answer =
     (if \<not> force \<and> confirm = None then Inl Abort
      else
        let confirmed = (if force then True else (confirm = Some True)) in
        if confirmed
        then (case clear_all_data e s answer of
                Inl err \<Rightarrow> Inr (s, ErrorClearing)
              | Inr (s', success) \<Rightarrow>
                  if success then Inr (s', ClearedSuccessfully)
                  else if \<not> force then Inr (s', CancelledByUser)
                  else Inr (s', FailedToClear))
        else Inr (s, Cancelled))"

section \<open>Ingestion (insert.py)\<close>

text \<open>A record of the input file is a dictionary; \<^verbatim>\<open>get\<close> gives \<^verbatim>\<open>None\<close> for a missing key.\<close>

type_synonym pydict = "string \<rightharpoonup> pyval"

definition dict_get :: "pydict \<Rightarrow> string \<Rightarrow> pyval" where
  "dict_get d k = (case d k of None \<Rightarrow> PNone | Some v \<Rightarrow> v)"

text \<open>The builtin \<^verbatim>\<open>int()\<close>.\<close>

fun py_int :: "env \<Rightarrow> pyval \<Rightarrow> error + int" where
  "py_int e PNone = Inl TypeError"
| "py_int e (PBool b) = Inr (if b then 1 else 0)"
| "py_int e (PInt n) = Inr n"
| "py_int e (PStr s) = (case py_int_str e s of None \<Rightarrow> Inl ValueError | Some n \<Rightarrow> Inr n)"

text \<open>The test of line 53: \<^verbatim>\<open>all([book_name, chapter_num, verse_num, text])\<close>.\<close>

definition all_present :: "pydict \<Rightarrow> bool" where
  "all_present verse_data =
     (truthy (dict_get verse_data ''book'') \<and> truthy (dict_get verse_data ''chapter'') \<and>
      truthy (dict_get verse_data ''verse'') \<and> truthy (dict_get verse_data ''text''))"

text \<open>
  The loop over the records, with the store and the two counters. The conversions
  \<^verbatim>\<open>int(chapter_num)\<close> and \<^verbatim>\<open>int(verse_num)\<close> stand outside the \<^verbatim>\<open>try\<close>: their exception
  leaves the loop, with the store as it is then. An exception of \<^verbatim>\<open>session.run\<close> is
  caught and counted.
\<close>

fun insert_loop ::
  "env \<Rightarrow> pydict list \<Rightarrow> store \<times> nat \<times> nat \<Rightarrow> (error \<times> store) + (store \<times> nat \<times> nat)" where
  "insert_loop e [] st = Inr st"
| "insert_loop e (verse_data # rest) (s, inserted_count, skipped_count) =
     (if \<not> all_present verse_data
      then insert_loop e rest (s, inserted_count, skipped_count + 1)
      else
        (case py_int e (dict_get verse_data ''chapter'') of
           Inl err \<Rightarrow> Inl (err, s)
         | Inr chapter_num \<Rightarrow>
             (case py_int e (dict_get verse_data ''verse'') of
                Inl err \<Rightarrow> Inl (err, s)
              | Inr verse_num \<Rightarrow>
                  if run_fails e (MergeVerse (dict_get verse_data ''book'') chapter_num verse_num
                                    (dict_get verse_data ''text''))
                  then insert_loop e rest (s, inserted_count, skipped_count + 1)
                  else insert_loop e rest
                         (merge_query s (dict_get verse_data ''book'') chapter_num verse_num
                            (dict_get verse_data ''text''),
                          inserted_count + 1, skipped_count))))"

text \<open>
  \<^verbatim>\<open>insert_bible_data\<close>: \<open>loaded\<close> is what reading the file gave, \<open>None\<close> for each of
  the three handled failures, after which the function returns.
\<close>

definition insert_bible_data ::
  "env \<Rightarrow> pydict list option \<Rightarrow> store \<Rightarrow> (error \<times> store) + (store \<times> nat \<times> nat)" where
  "insert_bible_data e loaded s =
     (case loaded of
        None \<Rightarrow> Inr (s, 0, 0)
      | Some bible_data \<Rightarrow>
          (case get_driver e of
             Inl err \<Rightarrow> Inl (err, s)
           | Inr _ \<Rightarrow> insert_loop e bible_data (s, 0, 0)))"

section \<open>Search (search.py)\<close>

text \<open>
  The embedding model and the vector index are objects of external libraries; the program
  uses one method of each. \<open>None\<close> is a raised exception. \<^verbatim>\<open>index.search\<close> answers with
  the row of distances and the row of identities for the one query vector.
\<close>

type_synonym vec = "real list"

record model =
  encode :: "pyval list \<Rightarrow> vec list option"

record index =
  search :: "vec \<Rightarrow> int \<Rightarrow> (real list \<times> int list) option"

text \<open>
  An entry of the result list of \<^verbatim>\<open>search_similar_verses\<close>: a dictionary with the keys
  \<^verbatim>\<open>node_id\<close> and \<^verbatim>\<open>distance\<close>. \<open>node_id = None\<close> is the case line 80 tests for.
\<close>

record hit =
  node_id :: "int option"
  distance :: real

text \<open>The loop of lines 44-49: identities \<open>-1\<close> are dropped.\<close>

fun collect_hits :: "int list \<Rightarrow> real list \<Rightarrow> hit list" where
  "collect_hits (i # ids) (d # distances) =
     (if i \<noteq> - 1 then \<lparr>node_id = Some i, distance = d\<rparr> # collect_hits ids distances
      else collect_hits ids distances)"
| "collect_hits ids distances = []"

text \<open>
  \<^verbatim>\<open>search_similar_verses\<close>. Every exception inside the \<^verbatim>\<open>try\<close> gives the empty list:
  of \<^verbatim>\<open>encode\<close>, of taking its first vector, of \<^verbatim>\<open>index.search\<close>, and of reading a
  distance beyond the end of its row.
\<close>

definition search_similar_verses ::
  "string \<Rightarrow> index option \<Rightarrow> model option \<Rightarrow> int \<Rightarrow> hit list" where
  "search_similar_verses query ix mdl k =
     (if query = [] then []
      else
        case (ix, mdl) of
          (Some i, Some m) \<Rightarrow>
            (case encode m [PStr query] of
               None \<Rightarrow> []
             | Some [] \<Rightarrow> []
             | Some (query_embedding # others) \<Rightarrow>
                 (case search i query_embedding k of
                    None \<Rightarrow> []
                  | Some (distances, ids) \<Rightarrow>
                      if ids \<noteq> [] \<and> distances \<noteq> []
                      then (if length distances < length ids then []
                            else collect_hits ids distances)
                      else []))
        | _ \<Rightarrow> [])"

text \<open>\<^verbatim>\<open>get_verse_details_from_neo4j\<close>: the row of the store with the distance added.\<close>

record verse_detail = verse_row +
  detail_distance :: real

fun get_verse_details_from_neo4j :: "env \<Rightarrow> store \<Rightarrow> hit list \<Rightarrow> verse_detail list" where
  "get_verse_details_from_neo4j e s [] = []"
| "get_verse_details_from_neo4j e s (result # rest) =
     (case node_id result of
        None \<Rightarrow> get_verse_details_from_neo4j e s rest
      | Some nid \<Rightarrow>
          (case get_verse_by_id e s nid of
             None \<Rightarrow> get_verse_details_from_neo4j e s rest
           | Some verse_info \<Rightarrow>
               \<lparr>book = book verse_info, chapter = chapter verse_info,
                verse = verse verse_info, text = text verse_info,
                detail_distance = distance result\<rparr>
                 # get_verse_details_from_neo4j e s rest))"

text \<open>
  One turn of the loop of \<^verbatim>\<open>run_search_shell\<close>, for a line that \<^verbatim>\<open>input()\<close> has read:
  what the turn prints, or that it leaves the loop or goes back to the prompt.
  \<^verbatim>\<open>str.strip()\<close> removes the white space of both ends.
\<close>

definition is_space :: "char \<Rightarrow> bool" where
  "is_space c =
     (let n = (of_char c :: nat) in
      (9 \<le> n \<and> n \<le> 13) \<or> (28 \<le> n \<and> n \<le> 32) \<or> n = 133 \<or> n = 160)"

definition strip :: "string \<Rightarrow> string" where
  "strip s = rev (dropWhile is_space (rev (dropWhile is_space s)))"

definition DEFAULT_SEARCH_RESULTS :: int where
  "DEFAULT_SEARCH_RESULTS = 5"

datatype shell_turn =
  Exiting | Prompt_again | No_similar_verses | Search_results "verse_detail list" | No_details

definition shell_turn :: "env \<Rightarrow> store \<Rightarrow> index \<Rightarrow> model \<Rightarrow> string \<Rightarrow> shell_turn" where
  "shell_turn e s i m line =
     (let query = strip line in
      if lower query = ''exit'' \<or> lower query = ''quit'' then Exiting
      else if query = [] then Prompt_again
      else
        let faiss_results = search_similar_verses query (Some i) (Some m) DEFAULT_SEARCH_RESULTS in
        if faiss_results = [] then No_similar_verses
        else
          let detailed_results = get_verse_details_from_neo4j e s faiss_results in
          if detailed_results \<noteq> [] then Search_results detailed_results else No_details)"

section \<open>Building the index (faiss_index.py)\<close>

text \<open>
  The calls into the libraries: loading the sentence transformer, building the
  identity-mapped flat index from the vectors and the identities, and writing it to the
  index path. \<^verbatim>\<open>write_index\<close> gives the content of the file afterwards and whether the
  call returned (\<open>True\<close>) or raised.
\<close>

record libs =
  load_model :: "model option"
  add_with_ids :: "nat \<Rightarrow> vec list \<Rightarrow> int list \<Rightarrow> index option"
  write_index :: "index \<Rightarrow> string option \<Rightarrow> string option \<times> bool"

text \<open>The state of the process: the database, the global \<^verbatim>\<open>_model\<close>, the index file.\<close>

record state =
  db :: store
  model_cache :: "model option"
  index_file :: "string option"

definition get_embedding_model :: "libs \<Rightarrow> state \<Rightarrow> (model \<times> state) option" where
  "get_embedding_model l st =
     (case model_cache st of
        Some m \<Rightarrow> Some (m, st)
      | None \<Rightarrow>
          (case load_model l of
             None \<Rightarrow> None
           | Some m \<Rightarrow> Some (m, st\<lparr>model_cache := Some m\<rparr>)))"

text \<open>
  \<^verbatim>\<open>np.array(embeddings)\<close> with \<^verbatim>\<open>shape[1]\<close> read inside the \<^verbatim>\<open>try\<close>: a two-dimensional
  array, or an exception.
\<close>

definition rectangular :: "vec list \<Rightarrow> bool" where
  "rectangular m = (m \<noteq> [] \<and> list_all (\<lambda>r. length r = length (hd m)) m)"

definition build_and_save_index :: "env \<Rightarrow> libs \<Rightarrow> state \<Rightarrow> bool \<times> state" where
  "build_and_save_index e l st =
     (let verses_data = get_all_verses_for_indexing e (db st) in
      if verses_data = [] then (False, st)
      else
        let node_ids = map fst verses_data; texts = map snd verses_data in
        (case get_embedding_model l st of
           None \<Rightarrow> (False, st)
         | Some (m, st1) \<Rightarrow>
             (case encode m texts of
                None \<Rightarrow> (False, st1)
              | Some embeddings \<Rightarrow>
                  if \<not> rectangular embeddings then (False, st1)
                  else
                    (case add_with_ids l (length (hd embeddings)) embeddings node_ids of
                       None \<Rightarrow> (False, st1)
                     | Some index_mapped \<Rightarrow>
                         (case write_index l index_mapped (index_file st1) of
                            (file', written) \<Rightarrow> (written, st1\<lparr>index_file := file'\<rparr>))))))"

section \<open>Properties named by the specification\<close>

text \<open>
  The ranking the specification asks of a search result: ascending by distance, and by
  identity where the distances are equal.
\<close>

definition ranked :: "hit list \<Rightarrow> bool" where
  "ranked hs =
     sorted_wrt (\<lambda>a b. distance a < distance b \<or>
                        (distance a = distance b \<and> the (node_id a) \<le> the (node_id b))) hs"

text \<open>The invariant of the data model: a composite key names at most one verse.\<close>

definition unique_keys :: "store \<Rightarrow> bool" where
  "unique_keys s = distinct (map verse_key (verses s))"

text \<open>
  What the statement of insert.py does to the list of verses, the identity of a new node
  apart: the text of the verses with the key is set, or a verse with the key is added.
\<close>

definition upsert_verse ::
  "verse_node list \<Rightarrow> pyval \<times> int \<times> int \<Rightarrow> pyval \<Rightarrow> int \<Rightarrow> verse_node list" where
  "upsert_verse vs k t i =
     (if filter (\<lambda>x. verse_key x = k) vs \<noteq> []
      then map (\<lambda>x. if verse_key x = k then x\<lparr>v_text := t\<rparr> else x) vs
      else vs @ [\<lparr>v_id = i, v_number = snd (snd k), v_chapterNumber = fst (snd k),
                  v_bookName = fst k, v_text = t\<rparr>])"

text \<open>
  Resolving one hit against the store, as the query pipeline is specified to: the record
  of the verse with the hit's distance, or nothing.
\<close>

definition resolve :: "env \<Rightarrow> store \<Rightarrow> hit \<Rightarrow> verse_detail option" where
  "resolve e s h =
     (case node_id h of
        None \<Rightarrow> None
      | Some nid \<Rightarrow>
          map_option
            (\<lambda>r. \<lparr>book = book r, chapter = chapter r, verse = verse r, text = text r,
                   detail_distance = distance h\<rparr>)
            (get_verse_by_id e s nid))"

section \<open>Sample inputs\<close>

definition quiet_env :: env where
  "quiet_env = \<lparr>connect_fails = False, run_fails = (\<lambda>q. False), py_int_str = (\<lambda>s. None)\<rparr>"

definition offline_env :: env where
  "offline_env = \<lparr>connect_fails = True, run_fails = (\<lambda>q. False), py_int_str = (\<lambda>s. None)\<rparr>"

definition genesis_store :: store where
  "genesis_store = merge_query empty_store (PStr ''Gen'') 1 1 (PStr ''In the beginning'')"

definition flat_model :: model where
  "flat_model = \<lparr>encode = (\<lambda>texts. Some (map (\<lambda>t. [0]) texts))\<rparr>"

text \<open>An index that reports two entries at the same distance, the larger identity first.\<close>

definition tied_index :: index where
  "tied_index = \<lparr>search = (\<lambda>v k. Some ([0, 0], [5, 3]))\<rparr>"

text \<open>An index with two entries, asked for three: the third place is padded with \<open>-1\<close>.\<close>

definition padded_index :: index where
  "padded_index = \<lparr>search = (\<lambda>v k. Some ([1 / 2, 1, 2], [7, 2, - 1]))\<rparr>"

text \<open>An index without entries: every place is padded.\<close>

definition vacant_index :: index where
  "vacant_index = \<lparr>search = (\<lambda>v k. Some ([2, 2], [- 1, - 1]))\<rparr>"

definition echo_index :: index where
  "echo_index = \<lparr>search = (\<lambda>v k. Some ([1], [2]))\<rparr>"

definition negative_chapter :: pydict where
  "negative_chapter =
     [''book'' \<mapsto> PStr ''Gen'', ''chapter'' \<mapsto> PInt (- 1), ''verse'' \<mapsto> PInt 1,
      ''text'' \<mapsto> PStr ''In the beginning'']"

definition no_text :: pydict where
  "no_text = [''book'' \<mapsto> PStr ''Gen'', ''chapter'' \<mapsto> PInt 1, ''verse'' \<mapsto> PInt 2]"

definition genesis_1_1 :: pydict where
  "genesis_1_1 =
     [''book'' \<mapsto> PStr ''Gen'', ''chapter'' \<mapsto> PInt 1, ''verse'' \<mapsto> PInt 1,
      ''text'' \<mapsto> PStr ''In the beginning'']"

text \<open>Libraries whose writer empties the file and then raises.\<close>

definition torn_write_libs :: libs where
  "torn_write_libs =
     \<lparr>load_model = Some flat_model,
      add_with_ids = (\<lambda>d vs ids. Some echo_index),
      write_index = (\<lambda>ix f. (Some [], False))\<rparr>"

definition no_model_libs :: libs where
  "no_model_libs =
     \<lparr>load_model = None,
      add_with_ids = (\<lambda>d vs ids. Some echo_index),
      write_index = (\<lambda>ix f. (Some ''new index'', True))\<rparr>"

definition indexed_state :: state where
  "indexed_state = \<lparr>db = genesis_store, model_cache = None, index_file = Some ''old index''\<rparr>"

definition cleared_state :: state where
  "cleared_state = \<lparr>db = empty_store, model_cache = None, index_file = Some ''old index''\<rparr>"

text \<open>Two hits, of which the first names a verse that the store does not have.\<close>

definition stale_hits :: "hit list" where
  "stale_hits = [\<lparr>node_id = Some 9, distance = 1 / 2\<rparr>, \<lparr>node_id = Some 2, distance = 1\<rparr>]"

definition gone_hits :: "hit list" where
  "gone_hits = [\<lparr>node_id = Some 9, distance = 1 / 2\<rparr>]"

text \<open>A store of two verses of one chapter, the nodes of the second verse, and three hits.\<close>

definition two_verse_store :: store where
  "two_verse_store = merge_query genesis_store (PStr ''Gen'') 1 2 (PStr ''And the earth'')"

definition mixed_hits :: "hit list" where
  "mixed_hits = [\<lparr>node_id = Some 9, distance = 1 / 4\<rparr>, \<lparr>node_id = Some 3, distance = 1 / 2\<rparr>,
                 \<lparr>node_id = Some 2, distance = 1\<rparr>]"

definition genesis_1_2_node :: verse_node where
  "genesis_1_2_node = \<lparr>v_id = 3, v_number = 2, v_chapterNumber = 1, v_bookName = PStr ''Gen'',
                        v_text = PStr ''And the earth''\<rparr>"

definition genesis_1_node :: chapter_node where
  "genesis_1_node = \<lparr>c_id = 1, c_number = 1, c_bookName = PStr ''Gen''\<rparr>"

definition genesis_node :: book_node where
  "genesis_node = \<lparr>b_id = 0, b_name = PStr ''Gen''\<rparr>"

section \<open>Evaluations of the sample inputs\<close>

lemma lower_no: "lower ''no'' \<noteq> ''yes''"
  by code_simp

lemma lower_Yes: "lower ''Yes'' = ''yes''"
  by code_simp

lemma strip_blank: "strip ''  '' = []"
  by code_simp

lemma genesis_verses: "verses genesis_store \<noteq> []"
  by code_simp

lemma genesis_rows:
  "get_all_verses_for_indexing quiet_env genesis_store = [(2, PStr ''In the beginning'')]"
  by code_simp

lemma search_vacant:
  "search_similar_verses ''love'' (Some vacant_index) (Some flat_model) 5 = []"
  by (simp add: search_similar_verses_def vacant_index_def flat_model_def)

lemma search_echo_blank:
  "search_similar_verses ''  '' (Some echo_index) (Some flat_model) 5
     = [\<lparr>node_id = Some 2, distance = 1\<rparr>]"
  by (simp add: search_similar_verses_def echo_index_def flat_model_def)

lemma cleared_db: "verses (db cleared_state) = []"
  by (simp add: cleared_state_def empty_store_def)

lemma offline_fails: "connect_fails offline_env"
  by (simp add: offline_env_def)

lemma build_no_model:
  "build_and_save_index quiet_env no_model_libs indexed_state = (False, indexed_state)"
  by (simp add: build_and_save_index_def genesis_rows indexed_state_def
      get_embedding_model_def no_model_libs_def)

section \<open>Reading the verses for indexing\<close>

lemma no_verses_no_rows: "verses s = [] \<Longrightarrow> get_all_verses_for_indexing e s = []"
  by (simp add: get_all_verses_for_indexing_def run_query_def get_driver_def
      match_all_verses_def)

lemma failing_query_no_rows:
  "connect_fails e \<or> run_fails e AllVerses \<Longrightarrow> get_all_verses_for_indexing e s = []"
  by (auto simp: get_all_verses_for_indexing_def run_query_def get_driver_def)

section \<open>The query pipeline: rejected queries\<close>

text \<open>
  Claim C3, as the code has it. For the empty query text \<^verbatim>\<open>search_similar_verses\<close>
  returns the empty list and raises nothing, whatever the index, the model and \<open>k\<close>; and
  the search shell, which strips each line, goes back to its prompt without searching
  when nothing is left of the line.
\<close>

theorem empty_query_gives_empty_list:
  "search_similar_verses [] ix mdl k = [] \<and>
   (strip line = [] \<longrightarrow> shell_turn e s i m line = Prompt_again)"
  by (simp add: search_similar_verses_def shell_turn_def lower_def)

text \<open>The theorem at the empty text and at a line of two blanks.\<close>

theorem empty_query_gives_empty_list_witness:
  "search_similar_verses [] (Some echo_index) (Some flat_model) 5 = [] \<and>
   strip ''  '' = [] \<and>
   shell_turn quiet_env genesis_store echo_index flat_model ''  '' = Prompt_again"
  using empty_query_gives_empty_list
    [of "Some echo_index" "Some flat_model" 5 "''  ''" quiet_env genesis_store echo_index flat_model]
    strip_blank
  by simp

text \<open>
  Claim C3 as stated fails: the result for the empty text is the very value a search
  without hits returns, so it is no failure the caller could recognise; and the text of
  two blanks is not rejected by \<^verbatim>\<open>search_similar_verses\<close> but searched, with a hit.
\<close>

theorem empty_query_no_typed_failure_counterexample:
  "search_similar_verses [] (Some echo_index) (Some flat_model) 5
     = search_similar_verses ''love'' (Some vacant_index) (Some flat_model) 5 \<and>
   search_similar_verses ''  '' (Some echo_index) (Some flat_model) 5
     = [\<lparr>node_id = Some 2, distance = 1\<rparr>]"
  using search_vacant search_echo_blank
  by (simp add: search_similar_verses_def)

text \<open>
  Claim C4, as the code has it. When the index or the model is not loaded
  (\<^verbatim>\<open>None\<close>), \<^verbatim>\<open>search_similar_verses\<close> returns the empty list.
\<close>

theorem unloaded_search_gives_empty_list:
  "ix = None \<or> mdl = None \<Longrightarrow> search_similar_verses query ix mdl k = []"
  by (auto simp: search_similar_verses_def split: option.splits)

text \<open>The theorem for a missing index.\<close>

theorem unloaded_search_gives_empty_list_witness:
  "search_similar_verses ''love'' None (Some flat_model) 5 = []"
  using unloaded_search_gives_empty_list [of None "Some flat_model" "''love''" 5]
  by simp

text \<open>
  Claim C4 as stated fails: without an index, and without a model, the result equals the
  result of a search that ran and found nothing.
\<close>

theorem unloaded_search_indistinguishable_counterexample:
  "search_similar_verses ''love'' None (Some flat_model) 5
     = search_similar_verses ''love'' (Some vacant_index) (Some flat_model) 5 \<and>
   search_similar_verses ''love'' (Some echo_index) None 5
     = search_similar_verses ''love'' (Some vacant_index) (Some flat_model) 5"
  using search_vacant
  by (simp add: search_similar_verses_def)

section \<open>Clearing the database\<close>

text \<open>
  Claim C5, as the code has it. \<^verbatim>\<open>clear_all_data\<close> asks before it deletes: an answer
  that is not ``yes'' in lower case leaves the store as it is and gives \<^verbatim>\<open>False\<close>; the
  answer ``yes'', in any case of the letters, empties the store when the database is
  reached and runs the statement. The command line asks as well, before it calls the
  operation: declined there, the store stays as it is and the operation is not called.
\<close>

theorem clear_all_data_asks_first:
  "(lower a \<noteq> ''yes'' \<longrightarrow> clear_all_data e s (Some a) = Inr (s, False)) \<and>
   (lower b = ''yes'' \<and> \<not> connect_fails e \<and> \<not> run_fails e DeleteAll \<longrightarrow>
      clear_all_data e s (Some b) = Inr (empty_store, True)) \<and>
   clear_database_command e s False (Some False) answer = Inr (s, Cancelled)"
  by (simp add: clear_all_data_def clear_database_command_def run_query_def get_driver_def)

text \<open>The theorem at the answers ``no'' and ``Yes'', on a store of one verse.\<close>

theorem clear_all_data_asks_first_witness:
  "clear_all_data quiet_env genesis_store (Some ''no'') = Inr (genesis_store, False) \<and>
   clear_all_data quiet_env genesis_store (Some ''Yes'') = Inr (empty_store, True) \<and>
   clear_database_command quiet_env genesis_store False (Some False) (Some ''Yes'')
     = Inr (genesis_store, Cancelled)"
  using clear_all_data_asks_first [of "''no''" quiet_env genesis_store "''Yes''" "Some ''Yes''"]
    lower_no lower_Yes
  by (simp add: quiet_env_def)

text \<open>
  Claim C5 as stated fails: invoked on a store with a verse and answered ``no'', the core
  operation destroys nothing.
\<close>

theorem clear_all_data_conditional_counterexample:
  "clear_all_data quiet_env genesis_store (Some ''no'') = Inr (genesis_store, False) \<and>
   verses genesis_store \<noteq> []"
  using lower_no genesis_verses
  by (simp add: clear_all_data_def)

section \<open>Building the index\<close>

text \<open>
  Claim C8, as the code has it. On a store without verses the build fails, returning
  \<^verbatim>\<open>False\<close>, and the state of the process is what it was: no index file is written,
  and none is changed.
\<close>

theorem build_on_empty_store_fails:
  "verses (db st) = [] \<Longrightarrow> build_and_save_index e l st = (False, st)"
  by (simp add: build_and_save_index_def no_verses_no_rows)

text \<open>The theorem on the cleared database.\<close>

theorem build_on_empty_store_fails_witness:
  "verses (db cleared_state) = [] \<and>
   build_and_save_index quiet_env torn_write_libs cleared_state = (False, cleared_state)"
  using build_on_empty_store_fails [of cleared_state quiet_env torn_write_libs] cleared_db
  by simp

text \<open>
  Claim C8 as stated fails: the failure carries no type. The build on the store without
  verses returns what a build returns that cannot load its model, or cannot reach its
  database, on a store that has a verse.
\<close>

theorem empty_corpus_failure_untyped_counterexample:
  "verses (db cleared_state) = [] \<and> verses (db indexed_state) \<noteq> [] \<and>
   fst (build_and_save_index quiet_env no_model_libs cleared_state)
     = fst (build_and_save_index quiet_env no_model_libs indexed_state) \<and>
   fst (build_and_save_index quiet_env no_model_libs cleared_state)
     = fst (build_and_save_index offline_env no_model_libs indexed_state)"
proof -
  have a: "build_and_save_index quiet_env no_model_libs cleared_state = (False, cleared_state)"
    using cleared_db by (simp add: build_and_save_index_def no_verses_no_rows)
  have b: "build_and_save_index offline_env no_model_libs indexed_state = (False, indexed_state)"
    using offline_fails by (simp add: build_and_save_index_def failing_query_no_rows)
  have c: "verses (db indexed_state) \<noteq> []"
    using genesis_verses by (simp add: indexed_state_def)
  from a b c cleared_db build_no_model show ?thesis by simp
qed




text \<open>
  Claim C10. When the connection or the statement fails, \<^verbatim>\<open>get_all_verses_for_indexing\<close>
  returns the empty list, and the build returns \<^verbatim>\<open>False\<close> with the state unchanged:
  the result of a build on a store that has no verses.
\<close>

theorem database_failure_looks_like_empty_corpus:
  "connect_fails e \<or> run_fails e AllVerses \<Longrightarrow>
     get_all_verses_for_indexing e (db st) = [] \<and>
     build_and_save_index e l st = (False, st) \<and>
     fst (build_and_save_index e l st)
       = fst (build_and_save_index e' l' (st\<lparr>db := empty_store\<rparr>))"
  by (simp add: build_and_save_index_def failing_query_no_rows no_verses_no_rows empty_store_def)

text \<open>The theorem for a database that cannot be reached, and a store that has a verse.\<close>

theorem database_failure_looks_like_empty_corpus_witness:
  "connect_fails offline_env \<and>
   get_all_verses_for_indexing offline_env (db indexed_state) = [] \<and>
   build_and_save_index offline_env no_model_libs indexed_state = (False, indexed_state) \<and>
   fst (build_and_save_index offline_env no_model_libs indexed_state)
     = fst (build_and_save_index quiet_env no_model_libs (indexed_state\<lparr>db := empty_store\<rparr>))"
  using database_failure_looks_like_empty_corpus
    [of offline_env indexed_state no_model_libs quiet_env no_model_libs] offline_fails
  by blast

section \<open>Searching the index\<close>

lemma collect_hits_zip:
  "collect_hits ids ds
     = map (\<lambda>(n, d). \<lparr>node_id = Some n, distance = d\<rparr>) (filter (\<lambda>(n, d). n \<noteq> - 1) (zip ids ds))"
  by (induction ids ds rule: collect_hits.induct) auto

lemma collect_hits_length: "length (collect_hits ids ds) \<le> length ids"
  by (induction ids ds rule: collect_hits.induct) auto

lemma collect_hits_distances: "set (map distance (collect_hits ids ds)) \<subseteq> set ds"
  by (induction ids ds rule: collect_hits.induct) auto

lemma collect_hits_sorted: "sorted ds \<Longrightarrow> sorted (map distance (collect_hits ids ds))"
proof (induction ids ds rule: collect_hits.induct)
  case (1 i ids d distances)
  from "1.prems" have "sorted distances" by simp
  with "1.IH" have rest: "sorted (map distance (collect_hits ids distances))"
    by (cases "i = - 1") simp_all
  have "\<forall>x \<in> set (map distance (collect_hits ids distances)). d \<le> x"
    using "1.prems" collect_hits_distances [of ids distances] by auto
  with rest show ?case by simp
qed simp_all

lemma collect_hits_padded:
  "- 1 \<notin> set real_ids \<Longrightarrow> length real_ids + p \<le> length ds \<Longrightarrow>
     map node_id (collect_hits (real_ids @ replicate p (- 1)) ds) = map Some real_ids"
proof (induction real_ids arbitrary: ds)
  case Nil
  then show ?case
  proof (induction p arbitrary: ds)
    case 0
    then show ?case by simp
  next
    case (Suc p)
    then show ?case by (cases ds) auto
  qed
next
  case (Cons a real_ids)
  then show ?case by (cases ds) auto
qed

lemma search_similar_verses_collects:
  assumes "query \<noteq> []" "encode m [PStr query] = Some (q # qs)"
    "search i q k = Some (distances, ids)" "length ids \<le> length distances"
  shows "search_similar_verses query (Some i) (Some m) k = collect_hits ids distances"
proof (cases "ids = [] \<or> distances = []")
  case True
  with assms show ?thesis
    by (cases ids; cases distances) (auto simp: search_similar_verses_def)
next
  case False
  with assms show ?thesis by (simp add: search_similar_verses_def)
qed

lemma padded_search: "search padded_index [0] 3 = Some ([1 / 2, 1, 2], [7, 2, - 1])"
  by (simp add: padded_index_def)

lemma flat_encode: "encode flat_model [PStr ''love''] = Some ([0] # [])"
  by (simp add: flat_model_def)

text \<open>
  Claim C1, as the code has it. For a query that is not empty, \<^verbatim>\<open>search_similar_verses\<close>
  returns the entries that the index reports, in the order of the index, without the
  places whose identity is \<open>-1\<close>: no more entries than the index reports, ascending by
  distance when the row of the index is, and, where the index has filled the end of its
  row with \<open>-1\<close>, every entry before the filling.
\<close>

theorem search_keeps_the_order_of_the_index:
  assumes "query \<noteq> []" and "encode m [PStr query] = Some (q # qs)"
    and "search i q k = Some (distances, ids)" and "length ids \<le> length distances"
  shows "search_similar_verses query (Some i) (Some m) k
           = map (\<lambda>(n, d). \<lparr>node_id = Some n, distance = d\<rparr>)
               (filter (\<lambda>(n, d). n \<noteq> - 1) (zip ids distances)) \<and>
         length (search_similar_verses query (Some i) (Some m) k) \<le> length ids \<and>
         (sorted distances \<longrightarrow>
            sorted (map distance (search_similar_verses query (Some i) (Some m) k))) \<and>
         (- 1 \<notin> set real_ids \<and> ids = real_ids @ replicate p (- 1) \<longrightarrow>
            map node_id (search_similar_verses query (Some i) (Some m) k) = map Some real_ids)"
proof -
  have eq: "search_similar_verses query (Some i) (Some m) k = collect_hits ids distances"
    using assms by (rule search_similar_verses_collects)
  have pad: "- 1 \<notin> set real_ids \<and> ids = real_ids @ replicate p (- 1) \<longrightarrow>
      map node_id (collect_hits ids distances) = map Some real_ids"
    using assms(4) collect_hits_padded [of real_ids p distances] by auto
  show ?thesis
    unfolding eq
    using collect_hits_zip [of ids distances] collect_hits_length [of ids distances]
      collect_hits_sorted [of distances ids] pad
    by blast
qed

text \<open>The theorem on an index with two entries, asked for three.\<close>

theorem search_keeps_the_order_of_the_index_witness:
  "search_similar_verses ''love'' (Some padded_index) (Some flat_model) 3
     = [\<lparr>node_id = Some 7, distance = 1 / 2\<rparr>, \<lparr>node_id = Some 2, distance = 1\<rparr>] \<and>
   length (search_similar_verses ''love'' (Some padded_index) (Some flat_model) 3) \<le> 3 \<and>
   sorted (map distance (search_similar_verses ''love'' (Some padded_index) (Some flat_model) 3)) \<and>
   map node_id (search_similar_verses ''love'' (Some padded_index) (Some flat_model) 3)
     = [Some 7, Some 2]"
  using search_keeps_the_order_of_the_index
    [of "''love''" flat_model "[0]" "[]" padded_index 3 "[1 / 2, 1, 2]" "[7, 2, - 1]" "[7, 2]" 1]
    padded_search flat_encode
  by simp

text \<open>
  Claim C1 as stated fails: the code does not sort. When the index reports two entries at
  the same distance, the larger identity first, that is the order of the result.
\<close>

theorem search_ties_not_by_identity_counterexample:
  "search_similar_verses ''love'' (Some tied_index) (Some flat_model) 2
     = [\<lparr>node_id = Some 5, distance = 0\<rparr>, \<lparr>node_id = Some 3, distance = 0\<rparr>] \<and>
   \<not> ranked (search_similar_verses ''love'' (Some tied_index) (Some flat_model) 2)"
  by (simp add: search_similar_verses_def tied_index_def flat_model_def ranked_def)

section \<open>Resolving the hits against the store\<close>

lemma details_map_filter:
  "get_verse_details_from_neo4j e s hits = List.map_filter (resolve e s) hits"
  by (induction hits) (auto simp: resolve_def map_filter_simps split: option.splits)

lemma details_distances:
  "set (map detail_distance (get_verse_details_from_neo4j e s hits)) \<subseteq> set (map distance hits)"
  by (induction hits) (auto split: option.splits)

lemma details_sorted:
  "sorted (map distance hits) \<Longrightarrow>
     sorted (map detail_distance (get_verse_details_from_neo4j e s hits))"
proof (induction hits)
  case Nil
  then show ?case by simp
next
  case (Cons h hits)
  then have rest: "sorted (map detail_distance (get_verse_details_from_neo4j e s hits))"
    by simp
  have "\<forall>x \<in> set (map detail_distance (get_verse_details_from_neo4j e s hits)). distance h \<le> x"
    using Cons.prems details_distances [of e s hits] by auto
  with rest show ?case by (auto split: option.splits)
qed

lemma details_none:
  "\<forall>h \<in> set hits. resolve e s h = None \<Longrightarrow> get_verse_details_from_neo4j e s hits = []"
  by (induction hits) (auto simp: resolve_def split: option.splits)

lemma dangling_identity:
  "nid \<notin> set (map v_id (verses s)) \<Longrightarrow> get_verse_by_id e s nid = None"
proof -
  assume "nid \<notin> set (map v_id (verses s))"
  then have "filter (\<lambda>v. v_id v = nid) (verses s) = []"
    by (auto simp: filter_empty_conv)
  then have "match_verse_by_id s nid = []"
    by (simp add: match_verse_by_id_def)
  then show ?thesis
    by (simp add: get_verse_by_id_def run_query_def get_driver_def split: sum.splits)
qed

lemma genesis_ids: "map v_id (verses genesis_store) = [2]"
  by code_simp

lemma genesis_lookup:
  "get_verse_by_id quiet_env genesis_store 2
     = Some \<lparr>book = PStr ''Gen'', chapter = 1, verse = 1, text = PStr ''In the beginning''\<rparr>"
  by code_simp

lemma genesis_lookup_stale: "get_verse_by_id quiet_env genesis_store 9 = None"
  by code_simp

lemma stale_details:
  "get_verse_details_from_neo4j quiet_env genesis_store stale_hits
     = [\<lparr>book = PStr ''Gen'', chapter = 1, verse = 1, text = PStr ''In the beginning'',
         detail_distance = 1\<rparr>]"
  by (simp add: stale_hits_def genesis_lookup genesis_lookup_stale)

lemma lookup_rows:
  "get_verse_by_id e s nid
     = (if connect_fails e \<or> run_fails e (VerseById nid) \<or> match_verse_by_id s nid = []
        then None else Some (hd (match_verse_by_id s nid)))"
  by (simp add: get_verse_by_id_def run_query_def get_driver_def)

lemma match_rows_sound:
  "r \<in> set (match_verse_by_id s nid) \<Longrightarrow>
     \<exists>v \<in> set (verses s). \<exists>c \<in> set (chapters s). \<exists>b \<in> set (books s).
       v_id v = nid \<and> (c_id c, v_id v) \<in> set (has_verse s) \<and>
       (b_id b, c_id c) \<in> set (has_chapter s) \<and>
       r = \<lparr>book = b_name b, chapter = c_number c, verse = v_number v, text = v_text v\<rparr>"
  unfolding match_verse_by_id_def by auto

lemma match_rows_complete:
  "v \<in> set (verses s) \<Longrightarrow> c \<in> set (chapters s) \<Longrightarrow> b \<in> set (books s) \<Longrightarrow>
   (c_id c, v_id v) \<in> set (has_verse s) \<Longrightarrow> (b_id b, c_id c) \<in> set (has_chapter s) \<Longrightarrow>
     match_verse_by_id s (v_id v) \<noteq> []"
proof -
  assume a: "v \<in> set (verses s)" "c \<in> set (chapters s)" "b \<in> set (books s)"
    "(c_id c, v_id v) \<in> set (has_verse s)" "(b_id b, c_id c) \<in> set (has_chapter s)"
  then have "\<lparr>book = b_name b, chapter = c_number c, verse = v_number v, text = v_text v\<rparr>
      \<in> set (match_verse_by_id s (v_id v))"
    unfolding match_verse_by_id_def by auto
  then show ?thesis by auto
qed

lemma match_rows_exact:
  "filter (\<lambda>v. v_id v = nid) (verses s) = [v] \<Longrightarrow>
   filter (\<lambda>c. (c_id c, v_id v) \<in> set (has_verse s)) (chapters s) = [c] \<Longrightarrow>
   filter (\<lambda>b. (b_id b, c_id c) \<in> set (has_chapter s)) (books s) = [b] \<Longrightarrow>
     match_verse_by_id s nid
       = [\<lparr>book = b_name b, chapter = c_number c, verse = v_number v, text = v_text v\<rparr>]"
  by (simp add: match_verse_by_id_def)

lemma resolve_sound:
  assumes "resolve e s h = Some r"
  shows "\<exists>v \<in> set (verses s). \<exists>c \<in> set (chapters s). \<exists>b \<in> set (books s).
       node_id h = Some (v_id v) \<and> (c_id c, v_id v) \<in> set (has_verse s) \<and>
       (b_id b, c_id c) \<in> set (has_chapter s) \<and>
       r = \<lparr>book = b_name b, chapter = c_number c, verse = v_number v, text = v_text v,
             detail_distance = distance h\<rparr>"
proof -
  from assms obtain nid row where nid: "node_id h = Some nid"
    and row: "get_verse_by_id e s nid = Some row"
    and r: "r = \<lparr>book = book row, chapter = chapter row, verse = verse row, text = text row,
                 detail_distance = distance h\<rparr>"
    by (auto simp: resolve_def split: option.splits)
  from row have "row \<in> set (match_verse_by_id s nid)"
    by (auto simp: lookup_rows split: if_splits)
  then obtain v c b where "v \<in> set (verses s)" "c \<in> set (chapters s)" "b \<in> set (books s)"
    "v_id v = nid" "(c_id c, v_id v) \<in> set (has_verse s)" "(b_id b, c_id c) \<in> set (has_chapter s)"
    "row = \<lparr>book = b_name b, chapter = c_number c, verse = v_number v, text = v_text v\<rparr>"
    using match_rows_sound by blast
  with nid r show ?thesis by auto
qed

lemma resolve_complete:
  assumes "\<not> connect_fails e" "\<not> run_fails e (VerseById (v_id v))"
    "v \<in> set (verses s)" "c \<in> set (chapters s)" "b \<in> set (books s)"
    "(c_id c, v_id v) \<in> set (has_verse s)" "(b_id b, c_id c) \<in> set (has_chapter s)"
  shows "resolve e s \<lparr>node_id = Some (v_id v), distance = d\<rparr> \<noteq> None"
  using assms(1,2) match_rows_complete [OF assms(3-7)]
  by (simp add: resolve_def lookup_rows)

lemma resolve_exact:
  assumes "\<not> connect_fails e" "\<not> run_fails e (VerseById nid)"
    "filter (\<lambda>v. v_id v = nid) (verses s) = [v]"
    "filter (\<lambda>c. (c_id c, v_id v) \<in> set (has_verse s)) (chapters s) = [c]"
    "filter (\<lambda>b. (b_id b, c_id c) \<in> set (has_chapter s)) (books s) = [b]"
  shows "resolve e s \<lparr>node_id = Some nid, distance = d\<rparr>
           = Some \<lparr>book = b_name b, chapter = c_number c, verse = v_number v, text = v_text v,
                   detail_distance = d\<rparr>"
  using assms(1,2) match_rows_exact [OF assms(3-5)]
  by (simp add: resolve_def lookup_rows)

lemma two_verse_store_value:
  "two_verse_store =
     \<lparr>books = [genesis_node], chapters = [genesis_1_node],
      verses = [\<lparr>v_id = 2, v_number = 1, v_chapterNumber = 1, v_bookName = PStr ''Gen'',
                 v_text = PStr ''In the beginning''\<rparr>, genesis_1_2_node],
      has_chapter = [(0, 1)], has_verse = [(1, 2), (1, 3)]\<rparr>"
  by code_simp

lemma two_verse_lookups:
  "get_verse_by_id quiet_env two_verse_store 9 = None"
  "get_verse_by_id quiet_env two_verse_store 3
     = Some \<lparr>book = PStr ''Gen'', chapter = 1, verse = 2, text = PStr ''And the earth''\<rparr>"
  "get_verse_by_id quiet_env two_verse_store 2
     = Some \<lparr>book = PStr ''Gen'', chapter = 1, verse = 1, text = PStr ''In the beginning''\<rparr>"
  by code_simp+

lemma mixed_details:
  "get_verse_details_from_neo4j quiet_env two_verse_store mixed_hits
     = [\<lparr>book = PStr ''Gen'', chapter = 1, verse = 2, text = PStr ''And the earth'',
         detail_distance = 1 / 2\<rparr>,
        \<lparr>book = PStr ''Gen'', chapter = 1, verse = 1, text = PStr ''In the beginning'',
         detail_distance = 1\<rparr>]"
  by (simp add: mixed_hits_def two_verse_lookups)

lemma two_verse_filters:
  "filter (\<lambda>v. v_id v = 3) (verses two_verse_store) = [genesis_1_2_node]"
  "filter (\<lambda>c. (c_id c, v_id genesis_1_2_node) \<in> set (has_verse two_verse_store))
     (chapters two_verse_store) = [genesis_1_node]"
  "filter (\<lambda>b. (b_id b, c_id genesis_1_node) \<in> set (has_chapter two_verse_store))
     (books two_verse_store) = [genesis_node]"
  "map v_id (verses two_verse_store) = [2, 3]"
  by (simp_all add: two_verse_store_value genesis_1_2_node_def genesis_1_node_def genesis_node_def)

text \<open>
  Claim C2. \<^verbatim>\<open>get_verse_details_from_neo4j\<close> resolves every hit against the store and
  keeps, in their order, the hits that resolve, each with the distance of the hit: so
  ascending distances stay ascending. When no hit resolves the result is the empty list.
  An identity that no verse of the store has does not resolve. A hit that resolves gives
  the number and the text of a verse with that identity, the number of a chapter that has
  the verse and the name of a book that has the chapter; a verse with a chapter and a book
  resolves when the database answers; and where the identity names one verse, of one
  chapter of one book, the record is that verse's book, chapter, verse and text.
\<close>

theorem unresolved_hits_are_skipped:
  "get_verse_details_from_neo4j e s hits = List.map_filter (resolve e s) hits \<and>
   (sorted (map distance hits) \<longrightarrow>
      sorted (map detail_distance (get_verse_details_from_neo4j e s hits))) \<and>
   ((\<forall>h \<in> set dead. resolve e s h = None) \<longrightarrow> get_verse_details_from_neo4j e s dead = []) \<and>
   (nid \<notin> set (map v_id (verses s)) \<longrightarrow> resolve e s \<lparr>node_id = Some nid, distance = d\<rparr> = None) \<and>
   (resolve e s h = Some r \<longrightarrow>
      (\<exists>v \<in> set (verses s). \<exists>c \<in> set (chapters s). \<exists>b \<in> set (books s).
         node_id h = Some (v_id v) \<and> (c_id c, v_id v) \<in> set (has_verse s) \<and>
         (b_id b, c_id c) \<in> set (has_chapter s) \<and>
         r = \<lparr>book = b_name b, chapter = c_number c, verse = v_number v, text = v_text v,
               detail_distance = distance h\<rparr>)) \<and>
   (\<not> connect_fails e \<and> \<not> run_fails e (VerseById (v_id v1)) \<and>
    v1 \<in> set (verses s) \<and> c1 \<in> set (chapters s) \<and> b1 \<in> set (books s) \<and>
    (c_id c1, v_id v1) \<in> set (has_verse s) \<and> (b_id b1, c_id c1) \<in> set (has_chapter s) \<longrightarrow>
      resolve e s \<lparr>node_id = Some (v_id v1), distance = d1\<rparr> \<noteq> None) \<and>
   (\<not> connect_fails e \<and> \<not> run_fails e (VerseById nid0) \<and>
    filter (\<lambda>v. v_id v = nid0) (verses s) = [v0] \<and>
    filter (\<lambda>c. (c_id c, v_id v0) \<in> set (has_verse s)) (chapters s) = [c0] \<and>
    filter (\<lambda>b. (b_id b, c_id c0) \<in> set (has_chapter s)) (books s) = [b0] \<longrightarrow>
      resolve e s \<lparr>node_id = Some nid0, distance = d0\<rparr>
        = Some \<lparr>book = b_name b0, chapter = c_number c0, verse = v_number v0, text = v_text v0,
                detail_distance = d0\<rparr>)"
proof -
  have 1: "get_verse_details_from_neo4j e s hits = List.map_filter (resolve e s) hits"
    by (rule details_map_filter)
  have 2: "sorted (map distance hits) \<longrightarrow>
      sorted (map detail_distance (get_verse_details_from_neo4j e s hits))"
    using details_sorted by blast
  have 3: "(\<forall>h \<in> set dead. resolve e s h = None) \<longrightarrow> get_verse_details_from_neo4j e s dead = []"
    using details_none by blast
  have 4: "nid \<notin> set (map v_id (verses s)) \<longrightarrow>
      resolve e s \<lparr>node_id = Some nid, distance = d\<rparr> = None"
    using dangling_identity [of nid s e] by (simp add: resolve_def)
  have 5: "resolve e s h = Some r \<longrightarrow>
      (\<exists>v \<in> set (verses s). \<exists>c \<in> set (chapters s). \<exists>b \<in> set (books s).
         node_id h = Some (v_id v) \<and> (c_id c, v_id v) \<in> set (has_verse s) \<and>
         (b_id b, c_id c) \<in> set (has_chapter s) \<and>
         r = \<lparr>book = b_name b, chapter = c_number c, verse = v_number v, text = v_text v,
               detail_distance = distance h\<rparr>)"
    using resolve_sound by blast
  have 6: "\<not> connect_fails e \<and> \<not> run_fails e (VerseById (v_id v1)) \<and>
    v1 \<in> set (verses s) \<and> c1 \<in> set (chapters s) \<and> b1 \<in> set (books s) \<and>
    (c_id c1, v_id v1) \<in> set (has_verse s) \<and> (b_id b1, c_id c1) \<in> set (has_chapter s) \<longrightarrow>
      resolve e s \<lparr>node_id = Some (v_id v1), distance = d1\<rparr> \<noteq> None"
    using resolve_complete by blast
  have 7: "\<not> connect_fails e \<and> \<not> run_fails e (VerseById nid0) \<and>
    filter (\<lambda>v. v_id v = nid0) (verses s) = [v0] \<and>
    filter (\<lambda>c. (c_id c, v_id v0) \<in> set (has_verse s)) (chapters s) = [c0] \<and>
    filter (\<lambda>b. (b_id b, c_id c0) \<in> set (has_chapter s)) (books s) = [b0] \<longrightarrow>
      resolve e s \<lparr>node_id = Some nid0, distance = d0\<rparr>
        = Some \<lparr>book = b_name b0, chapter = c_number c0, verse = v_number v0, text = v_text v0,
                detail_distance = d0\<rparr>"
    using resolve_exact by blast
  from 1 2 3 4 5 6 7 show ?thesis by (intro conjI)
qed

text \<open>
  The theorem on the store of two verses, with a hit for a verse that is not there: the
  second verse is found under its identity, before the first.
\<close>

theorem unresolved_hits_are_skipped_witness:
  "get_verse_details_from_neo4j quiet_env two_verse_store mixed_hits
     = [\<lparr>book = PStr ''Gen'', chapter = 1, verse = 2, text = PStr ''And the earth'',
         detail_distance = 1 / 2\<rparr>,
        \<lparr>book = PStr ''Gen'', chapter = 1, verse = 1, text = PStr ''In the beginning'',
         detail_distance = 1\<rparr>] \<and>
   sorted (map distance mixed_hits) \<and>
   sorted (map detail_distance (get_verse_details_from_neo4j quiet_env two_verse_store mixed_hits)) \<and>
   get_verse_details_from_neo4j quiet_env two_verse_store gone_hits = [] \<and>
   resolve quiet_env two_verse_store \<lparr>node_id = Some 9, distance = 1 / 4\<rparr> = None \<and>
   resolve quiet_env two_verse_store \<lparr>node_id = Some 3, distance = 1 / 2\<rparr>
     = Some \<lparr>book = PStr ''Gen'', chapter = 1, verse = 2, text = PStr ''And the earth'',
             detail_distance = 1 / 2\<rparr>"
  using unresolved_hits_are_skipped
    [of quiet_env two_verse_store mixed_hits gone_hits 9 "1 / 4"
      "\<lparr>node_id = Some 3, distance = 1 / 2\<rparr>"
      "\<lparr>book = PStr ''Gen'', chapter = 1, verse = 2, text = PStr ''And the earth'',
         detail_distance = 1 / 2\<rparr>"
      genesis_1_2_node genesis_1_node genesis_node "1 / 2" 3 genesis_1_2_node genesis_1_node
      genesis_node "1 / 2"]
    mixed_details two_verse_filters two_verse_lookups
  by (simp add: mixed_hits_def gone_hits_def resolve_def quiet_env_def genesis_1_2_node_def
      genesis_1_node_def genesis_node_def)

section \<open>Ingestion\<close>

lemma insert_loop_append:
  "insert_loop e (xs @ ys) st
     = (case insert_loop e xs st of Inl x \<Rightarrow> Inl x | Inr st' \<Rightarrow> insert_loop e ys st')"
proof (induction xs arbitrary: st)
  case Nil
  then show ?case by simp
next
  case (Cons r xs)
  obtain s i k where st: "st = (s, i, k)" by (cases st) auto
  show ?case
    unfolding st
    by (simp add: Cons.IH split: sum.splits)
qed

lemma insert_loop_one_more_skipped:
  "insert_loop e rs (s, i, Suc k)
     = map_sum id (\<lambda>(s', i', k'). (s', i', Suc k')) (insert_loop e rs (s, i, k))"
proof (induction rs arbitrary: s i k)
  case Nil
  then show ?case by simp
next
  case (Cons r rs)
  show ?case
    by (simp add: Cons.IH split: sum.splits)
qed

lemma not_all_present:
  "k \<in> set [''book'', ''chapter'', ''verse'', ''text''] \<Longrightarrow> \<not> truthy (dict_get r k) \<Longrightarrow>
     \<not> all_present r"
  by (auto simp: all_present_def)

lemma no_text_falsy: "\<not> truthy (dict_get no_text ''text'')"
  by (simp add: no_text_def dict_get_def)

lemma loop_genesis:
  "insert_loop quiet_env [genesis_1_1] (empty_store, 0, 0) = Inr (genesis_store, 1, 0)"
  by (simp add: genesis_1_1_def dict_get_def all_present_def quiet_env_def genesis_store_def)

text \<open>
  Claim C6, as the code has it. A record in which the book, the chapter, the verse or the
  text is missing or falsy (\<^verbatim>\<open>None\<close>, the empty string, zero, \<^verbatim>\<open>False\<close>) is skipped
  and counted, the store is not touched, and the rest of the batch is processed as if the
  record were not there.
\<close>

theorem malformed_record_is_skipped:
  assumes "key \<in> set [''book'', ''chapter'', ''verse'', ''text'']"
    and "\<not> truthy (dict_get r key)"
  shows "insert_loop e (r # post) (s, i, k) = insert_loop e post (s, i, Suc k) \<and>
         insert_loop e (pre @ r # post) st
           = map_sum id (\<lambda>(s', i', k'). (s', i', Suc k')) (insert_loop e (pre @ post) st)"
proof -
  have absent: "\<not> all_present r"
    using assms by (rule not_all_present)
  then have step: "insert_loop e (r # post) (s0, i0, k0) = insert_loop e post (s0, i0, Suc k0)"
    for s0 i0 k0 by simp
  have "insert_loop e (pre @ r # post) st
          = map_sum id (\<lambda>(s', i', k'). (s', i', Suc k')) (insert_loop e (pre @ post) st)"
  proof (cases "insert_loop e pre st")
    case (Inl x)
    then show ?thesis by (simp add: insert_loop_append)
  next
    case (Inr st')
    obtain s1 i1 k1 where st': "st' = (s1, i1, k1)" by (cases st') auto
    show ?thesis
      using Inr
      by (simp add: insert_loop_append st' absent insert_loop_one_more_skipped)
  qed
  with step show ?thesis by simp
qed

text \<open>The theorem for a record without a text, before and after a good record.\<close>

theorem malformed_record_is_skipped_witness:
  "insert_loop quiet_env [no_text, genesis_1_1] (empty_store, 0, 0) = Inr (genesis_store, 1, 1) \<and>
   insert_loop quiet_env [genesis_1_1, no_text] (empty_store, 0, 0) = Inr (genesis_store, 1, 1)"
  using malformed_record_is_skipped
    [of "''text''" no_text quiet_env "[genesis_1_1]" empty_store 0 0 "[genesis_1_1]" "(empty_store, 0, 0)"]
    malformed_record_is_skipped
    [of "''text''" no_text quiet_env "[]" empty_store 0 0 "[genesis_1_1]" "(empty_store, 0, 0)"]
    no_text_falsy loop_genesis
  by (simp add: insert_loop_one_more_skipped)

text \<open>
  Claim C6 as stated fails: a chapter number that is not positive, \<open>-1\<close>, passes the
  test of line 53; the record is not skipped, and the verse is stored with that number.
\<close>

theorem negative_chapter_is_inserted_counterexample:
  "insert_loop quiet_env [negative_chapter] (empty_store, 0, 0)
     = Inr (merge_query empty_store (PStr ''Gen'') (- 1) 1 (PStr ''In the beginning''), 1, 0) \<and>
   map v_chapterNumber
     (verses (merge_query empty_store (PStr ''Gen'') (- 1) 1 (PStr ''In the beginning''))) = [- 1]"
proof -
  have "map v_chapterNumber
     (verses (merge_query empty_store (PStr ''Gen'') (- 1) 1 (PStr ''In the beginning''))) = [- 1]"
    by code_simp
  then show ?thesis
    by (simp add: negative_chapter_def dict_get_def all_present_def quiet_env_def)
qed

section \<open>Upserting a verse\<close>

lemma verses_merge_book: "verses (fst (merge_book s b)) = verses s"
  by (simp add: merge_book_def Let_def)

lemma verses_merge_chapter: "verses (fst (merge_chapter s c b)) = verses s"
  by (simp add: merge_chapter_def Let_def)

lemma verses_merge_verse:
  "verses (fst (merge_verse s v c b t)) = upsert_verse (verses s) (b, c, v) t (fresh_id s)"
  by (simp add: merge_verse_def upsert_verse_def Let_def)

lemma verses_merge_query:
  "\<exists>i. verses (merge_query s b c v t) = upsert_verse (verses s) (b, c, v) t i"
proof -
  obtain s1 bs where 1: "merge_book s b = (s1, bs)" by (cases "merge_book s b")
  obtain s2 cs where 2: "merge_chapter s1 c b = (s2, cs)" by (cases "merge_chapter s1 c b")
  obtain s3 vs where 3: "merge_verse s2 v c b t = (s3, vs)" by (cases "merge_verse s2 v c b t")
  have "verses s1 = verses s" using verses_merge_book [of s b] 1 by simp
  moreover have "verses s2 = verses s1" using verses_merge_chapter [of s1 c b] 2 by simp
  moreover have "verses s3 = upsert_verse (verses s2) (b, c, v) t (fresh_id s2)"
    using verses_merge_verse [of s2 v c b t] 3 by simp
  moreover have "verses (merge_query s b c v t) = verses s3"
    by (simp add: merge_query_def 1 2 3)
  ultimately have "verses (merge_query s b c v t)
      = upsert_verse (verses s) (b, c, v) t (fresh_id s2)"
    by simp
  then show ?thesis ..
qed

lemma key_update: "verse_key (x\<lparr>v_text := t\<rparr>) = verse_key x"
  by (simp add: verse_key_def)

lemma key_new:
  "verse_key \<lparr>v_id = i, v_number = snd (snd k), v_chapterNumber = fst (snd k),
              v_bookName = fst k, v_text = t\<rparr> = k"
  by (simp add: verse_key_def)

lemma no_key_no_verse: "k \<notin> set (map f xs) \<Longrightarrow> filter (\<lambda>x. f x = k) xs = []"
  by (induction xs) auto

lemma key_some_verse: "k \<in> set (map f xs) \<Longrightarrow> filter (\<lambda>x. f x = k) xs \<noteq> []"
  by (induction xs) auto

lemma upsert_verse_hit:
  "k \<in> set (map verse_key vs) \<Longrightarrow>
     upsert_verse vs k t i = map (\<lambda>x. if verse_key x = k then x\<lparr>v_text := t\<rparr> else x) vs"
  using key_some_verse [of k verse_key vs] by (simp add: upsert_verse_def)

lemma upsert_verse_miss:
  "k \<notin> set (map verse_key vs) \<Longrightarrow>
     upsert_verse vs k t i
       = vs @ [\<lparr>v_id = i, v_number = snd (snd k), v_chapterNumber = fst (snd k),
                 v_bookName = fst k, v_text = t\<rparr>]"
  using no_key_no_verse [of k verse_key vs] by (simp add: upsert_verse_def)

lemma keys_after_update:
  "map verse_key (map (\<lambda>x. if verse_key x = k then x\<lparr>v_text := t\<rparr> else x) vs)
     = map verse_key vs"
  by (induction vs) (simp_all add: key_update)

lemma upsert_verse_keys:
  "map verse_key (upsert_verse vs k t i)
     = (if k \<in> set (map verse_key vs) then map verse_key vs else map verse_key vs @ [k])"
proof (cases "k \<in> set (map verse_key vs)")
  case True
  have "map verse_key (upsert_verse vs k t i) = map verse_key vs"
    unfolding upsert_verse_hit [OF True] by (rule keys_after_update)
  with True show ?thesis by simp
next
  case False
  then show ?thesis
    by (simp add: upsert_verse_miss key_new)
qed

lemma upsert_verse_text:
  assumes "x \<in> set (upsert_verse vs k t i)" and "verse_key x = k"
  shows "v_text x = t"
proof (cases "k \<in> set (map verse_key vs)")
  case True
  with assms(1) obtain y where y: "y \<in> set vs"
      and x: "x = (if verse_key y = k then y\<lparr>v_text := t\<rparr> else y)"
    unfolding upsert_verse_hit [OF True] by auto
  show ?thesis
  proof (cases "verse_key y = k")
    case True
    with x show ?thesis by simp
  next
    case False
    with x assms(2) show ?thesis by simp
  qed
next
  case False
  from assms(1) have "x \<in> set vs \<or>
      x = \<lparr>v_id = i, v_number = snd (snd k), v_chapterNumber = fst (snd k),
            v_bookName = fst k, v_text = t\<rparr>"
    unfolding upsert_verse_miss [OF False] by auto
  then show ?thesis
  proof
    assume "x \<in> set vs"
    with assms(2) have "k \<in> set (map verse_key vs)" by force
    with False show ?thesis by simp
  next
    assume "x = \<lparr>v_id = i, v_number = snd (snd k), v_chapterNumber = fst (snd k),
            v_bookName = fst k, v_text = t\<rparr>"
    then show ?thesis by simp
  qed
qed

lemma upsert_verse_length_again:
  "k \<in> set (map verse_key vs) \<Longrightarrow> length (upsert_verse vs k t i) = length vs"
  by (simp add: upsert_verse_hit)

lemma one_verse_per_key:
  assumes "distinct (map verse_key vs)" and "k \<in> set (map verse_key vs)"
    and "\<forall>x \<in> set vs. verse_key x = k \<longrightarrow> v_text x = t"
  shows "map v_text (filter (\<lambda>x. verse_key x = k) vs) = [t]"
  using assms
proof (induction vs)
  case Nil
  then show ?case by simp
next
  case (Cons a vs)
  show ?case
  proof (cases "verse_key a = k")
    case True
    from Cons.prems(1) have "verse_key a \<notin> set (map verse_key vs)" by simp
    with True have "filter (\<lambda>x. verse_key x = k) vs = []"
      by (simp add: no_key_no_verse)
    with True Cons.prems show ?thesis by force
  next
    case False
    with Cons show ?thesis by auto
  qed
qed

lemma unique_keys_empty: "unique_keys empty_store"
  by (simp add: unique_keys_def empty_store_def)

lemma unique_keys_merge_query: "unique_keys s \<Longrightarrow> unique_keys (merge_query s b c v t)"
proof -
  assume u: "unique_keys s"
  obtain i where "verses (merge_query s b c v t) = upsert_verse (verses s) (b, c, v) t i"
    using verses_merge_query by blast
  then have keys: "map verse_key (verses (merge_query s b c v t))
      = (if (b, c, v) \<in> set (map verse_key (verses s)) then map verse_key (verses s)
         else map verse_key (verses s) @ [(b, c, v)])"
    by (simp only: upsert_verse_keys)
  show ?thesis
  proof (cases "(b, c, v) \<in> set (map verse_key (verses s))")
    case True
    with keys u show ?thesis by (simp add: unique_keys_def)
  next
    case False
    with keys u show ?thesis by (simp add: unique_keys_def)
  qed
qed

lemma genesis_unique: "unique_keys genesis_store"
  by (simp add: genesis_store_def unique_keys_merge_query unique_keys_empty)

text \<open>The loop of the ingestion keeps the keys unique, from the empty store on.\<close>

lemma unique_keys_insert_loop:
  "unique_keys s \<Longrightarrow> insert_loop e rs (s, i, k) = Inr (s', i', k') \<Longrightarrow> unique_keys s'"
proof (induction rs arbitrary: s i k)
  case Nil
  then show ?case by simp
next
  case (Cons r rs)
  show ?case
  proof (cases "all_present r")
    case False
    with Cons.prems(2) have "insert_loop e rs (s, i, k + 1) = Inr (s', i', k')" by simp
    with Cons.prems(1) show ?thesis by (rule Cons.IH)
  next
    case True
    show ?thesis
    proof (cases "py_int e (dict_get r ''chapter'')")
      case (Inl err)
      with True Cons.prems(2) show ?thesis by simp
    next
      case c: (Inr c)
      show ?thesis
      proof (cases "py_int e (dict_get r ''verse'')")
        case (Inl err)
        with True c Cons.prems(2) show ?thesis by simp
      next
        case v: (Inr v)
        show ?thesis
        proof (cases "run_fails e (MergeVerse (dict_get r ''book'') c v (dict_get r ''text''))")
          case True
          with \<open>all_present r\<close> c v Cons.prems(2)
          have "insert_loop e rs (s, i, k + 1) = Inr (s', i', k')" by simp
          with Cons.prems(1) show ?thesis by (rule Cons.IH)
        next
          case False
          with \<open>all_present r\<close> c v Cons.prems(2)
          have "insert_loop e rs
                  (merge_query s (dict_get r ''book'') c v (dict_get r ''text''), i + 1, k)
                = Inr (s', i', k')" by simp
          with unique_keys_merge_query [OF Cons.prems(1)] show ?thesis by (rule Cons.IH)
        qed
      qed
    qed
  qed
qed

text \<open>
  Claim C7. Upserting a key (book, chapter, verse) twice leaves as many verses as the
  first upsert did, and at least one verse with that key, each with the later text. In a
  store whose keys are unique, as in every store that the ingestion has built from the
  empty one, that is exactly one verse, and the keys stay unique.
\<close>

theorem upsert_twice_last_write_wins:
  "length (verses (merge_query (merge_query s b c v t1) b c v t2))
     = length (verses (merge_query s b c v t1)) \<and>
   filter (\<lambda>x. verse_key x = (b, c, v))
     (verses (merge_query (merge_query s b c v t1) b c v t2)) \<noteq> [] \<and>
   set (map v_text (filter (\<lambda>x. verse_key x = (b, c, v))
          (verses (merge_query (merge_query s b c v t1) b c v t2)))) = {t2} \<and>
   (unique_keys s \<longrightarrow>
      map v_text (filter (\<lambda>x. verse_key x = (b, c, v))
        (verses (merge_query (merge_query s b c v t1) b c v t2))) = [t2] \<and>
      unique_keys (merge_query (merge_query s b c v t1) b c v t2))"
proof -
  let ?once = "merge_query s b c v t1"
  let ?twice = "merge_query ?once b c v t2"
  let ?mine = "filter (\<lambda>x. verse_key x = (b, c, v)) (verses ?twice)"
  obtain i1 where v1: "verses ?once = upsert_verse (verses s) (b, c, v) t1 i1"
    using verses_merge_query by blast
  obtain i2 where v2: "verses ?twice = upsert_verse (verses ?once) (b, c, v) t2 i2"
    using verses_merge_query by blast
  have in1: "(b, c, v) \<in> set (map verse_key (verses ?once))"
    unfolding v1 upsert_verse_keys by simp
  have in2: "(b, c, v) \<in> set (map verse_key (verses ?twice))"
    unfolding v2 upsert_verse_keys by simp
  have latest: "\<forall>x \<in> set (verses ?twice). verse_key x = (b, c, v) \<longrightarrow> v_text x = t2"
    unfolding v2 using upsert_verse_text by blast
  have len: "length (verses ?twice) = length (verses ?once)"
    unfolding v2 using in1 by (rule upsert_verse_length_again)
  have some: "?mine \<noteq> []"
    using in2 by (rule key_some_verse)
  have "set (map v_text ?mine) \<subseteq> {t2}"
    using latest by auto
  moreover have "set (map v_text ?mine) \<noteq> {}"
    using some by (simp only: set_empty map_is_Nil_conv not_False_eq_True)
  ultimately have texts: "set (map v_text ?mine) = {t2}"
    by (metis subset_singletonD)
  have exact: "unique_keys s \<longrightarrow> map v_text ?mine = [t2] \<and> unique_keys ?twice"
  proof
    assume u: "unique_keys s"
    then have u2: "unique_keys ?twice"
      by (intro unique_keys_merge_query)
    have "map v_text ?mine = [t2]"
      using u2 in2 latest unfolding unique_keys_def by (rule one_verse_per_key)
    with u2 show "map v_text ?mine = [t2] \<and> unique_keys ?twice" by simp
  qed
  from len some texts exact show ?thesis by blast
qed

text \<open>The theorem on the store of one verse, whose key is upserted twice more.\<close>

theorem upsert_twice_last_write_wins_witness:
  "unique_keys genesis_store \<and>
   length (verses (merge_query
                (merge_query genesis_store (PStr ''Gen'') 1 1 (PStr ''At the first''))
                (PStr ''Gen'') 1 1 (PStr ''When God began'')))
     = length (verses (merge_query genesis_store (PStr ''Gen'') 1 1 (PStr ''At the first''))) \<and>
   map v_text (filter (\<lambda>x. verse_key x = (PStr ''Gen'', 1, 1))
     (verses (merge_query (merge_query genesis_store (PStr ''Gen'') 1 1 (PStr ''At the first''))
                (PStr ''Gen'') 1 1 (PStr ''When God began'')))) = [PStr ''When God began''] \<and>
   unique_keys (merge_query (merge_query genesis_store (PStr ''Gen'') 1 1 (PStr ''At the first''))
                (PStr ''Gen'') 1 1 (PStr ''When God began''))"
  using upsert_twice_last_write_wins
    [of genesis_store "PStr ''Gen''" 1 1 "PStr ''At the first''" "PStr ''When God began''"]
    genesis_unique
  by blast

end
